theory Spec2Isabelle
  imports Complex_Main "HOL-Library.Word"
begin

section \<open>Paths and file names\<close>

text \<open>
  The program names its output files with \<^verbatim>\<open>os.path.basename\<close>, \<^verbatim>\<open>os.path.splitext\<close>
  and \<^verbatim>\<open>os.path.join\<close>. They are modelled on POSIX paths as the standard library
  computes them: \<^verbatim>\<open>rfind\<close> gives the index of the last occurrence of a character or -1,
  \<^verbatim>\<open>basename\<close> keeps what follows the last slash, and \<^verbatim>\<open>splitext\<close> cuts at the last
  dot of the last component unless that component consists of leading dots only.
  Strings are lists of characters; \<^verbatim>\<open>str.lower\<close> is modelled on the ASCII letters.
\<close>

definition rfind :: "char \<Rightarrow> string \<Rightarrow> int" where
  "rfind c p =
     (if c \<in> set p
      then int (length p) - 1 - int (length (takeWhile (\<lambda>x. x \<noteq> c) (rev p)))
      else - 1)"

definition basename :: "string \<Rightarrow> string" where
  "basename p = drop (nat (rfind (CHR ''/'') p + 1)) p"

definition splitext :: "string \<Rightarrow> string \<times> string" where
  "splitext p =
     (let sepIndex = rfind (CHR ''/'') p;
          dotIndex = rfind (CHR ''.'') p
      in if dotIndex > sepIndex \<and>
            list_ex (\<lambda>c. c \<noteq> CHR ''.'')
              (take (nat (dotIndex - (sepIndex + 1))) (drop (nat (sepIndex + 1)) p))
         then (take (nat dotIndex) p, drop (nat dotIndex) p)
         else (p, []))"

definition path_join :: "string \<Rightarrow> string \<Rightarrow> string" where
  "path_join a b =
     (if b \<noteq> [] \<and> hd b = CHR ''/'' then b
      else if a = [] \<or> last a = CHR ''/'' then a @ b
      else a @ ''/'' @ b)"

definition lower_char :: "char \<Rightarrow> char" where
  "lower_char c =
     (if of_char c \<ge> (65 :: nat) \<and> of_char c \<le> (90 :: nat)
      then char_of (of_char c + (32 :: nat)) else c)"

definition lower :: "string \<Rightarrow> string" where
  "lower s = map lower_char s"

definition SUPPORTED_FORMATS :: "string list" where
  "SUPPORTED_FORMATS = [''.m4a'', ''.mp3'', ''.webm'', ''.mp4'', ''.mpga'', ''.wav'', ''.mpeg'']"

definition is_supported_format :: "string \<Rightarrow> bool" where
  "is_supported_format file_path = (lower (snd (splitext file_path)) \<in> set SUPPORTED_FORMATS)"

text \<open>The two output names: the primary transcript of \<^verbatim>\<open>create_transcript_file\<close>
  and the translation file written by \<^verbatim>\<open>process_file\<close> and \<^verbatim>\<open>process_directory\<close>.\<close>

definition base_filename :: "string \<Rightarrow> string" where
  "base_filename file_path = fst (splitext (basename file_path))"

definition output_file_path :: "string \<Rightarrow> string" where
  "output_file_path file_path = base_filename file_path @ ''-transcript.txt''"

definition translation_file_path :: "string \<Rightarrow> string" where
  "translation_file_path file_path = file_path @ ''-transcript_en.txt''"

section \<open>The world: file system, log and collaborators\<close>

text \<open>
  Exceptions are values. The speech recogniser, the language detector, the translator
  and the directory walk are libraries outside the repository: they are parameters of
  the model (record \<open>env\<close>), each returning a result or the exception it raises.
  An audio clip is its sequence of samples.
\<close>

datatype exn =
    UnknownValueError
  | RequestError string
  | WaitTimeoutError
  | TypeError string
  | ValueError string
  | IsADirectoryError string
  | OtherException string

fun exn_str :: "exn \<Rightarrow> string" where
  "exn_str UnknownValueError = []"
| "exn_str WaitTimeoutError = []"
| "exn_str (RequestError m) = m"
| "exn_str (TypeError m) = m"
| "exn_str (ValueError m) = m"
| "exn_str (IsADirectoryError m) = m"
| "exn_str (OtherException m) = m"

datatype log_entry = LogInfo string | LogWarning string | LogError string

type_synonym audio = "int list"

record env =
  record_audio :: "string \<Rightarrow> exn + audio"
  recognize_google :: "audio \<Rightarrow> exn + string"
  detect :: "string \<Rightarrow> exn + string"
  translate :: "string \<Rightarrow> exn + string"
  walk :: "string \<Rightarrow> (string \<times> string list \<times> string list) list"
  open_error :: "string \<Rightarrow> exn option"
  format_2f :: "real \<Rightarrow> string"

text \<open>
  The state the program changes: the files (path to content), the directories, the log,
  and the clips handed to the recogniser, in order.
\<close>

record state =
  files :: "string \<rightharpoonup> string"
  dirs :: "string set"
  log :: "log_entry list"
  recognized :: "audio list"

definition logging :: "log_entry \<Rightarrow> state \<Rightarrow> state" where
  "logging e st = st\<lparr>log := log st @ [e]\<rparr>"

definition isfile :: "state \<Rightarrow> string \<Rightarrow> bool" where
  "isfile st p = (files st p \<noteq> None)"

definition isdir :: "state \<Rightarrow> string \<Rightarrow> bool" where
  "isdir st p = (p \<in> dirs st)"

definition path_exists :: "state \<Rightarrow> string \<Rightarrow> bool" where
  "path_exists st p = (isfile st p \<or> isdir st p)"

definition is_valid_file :: "state \<Rightarrow> string \<Rightarrow> bool" where
  "is_valid_file st file_path = isfile st file_path"

text \<open>\<^verbatim>\<open>open(path, 'w')\<close> followed by the writes: it raises on a directory or when
  the environment refuses the path, and otherwise replaces the file's content.\<close>

definition write_file :: "env \<Rightarrow> state \<Rightarrow> string \<Rightarrow> string \<Rightarrow> exn + state" where
  "write_file ev st p content =
     (if isdir st p then Inl (IsADirectoryError p)
      else case open_error ev p of
             Some e \<Rightarrow> Inl e
           | None \<Rightarrow> Inr (st\<lparr>files := (files st)(p \<mapsto> content)\<rparr>))"

section \<open>Transcript files\<close>

definition is_space :: "char \<Rightarrow> bool" where
  "is_space c = (c \<in> set [CHR '' '', CHR 0x09, CHR 0x0A, CHR 0x0B, CHR 0x0C, CHR 0x0D])"

fun split_ws_aux :: "string \<Rightarrow> string \<Rightarrow> string list" where
  "split_ws_aux w [] = (if w = [] then [] else [rev w])"
| "split_ws_aux w (c # cs) =
     (if is_space c then (if w = [] then split_ws_aux [] cs else rev w # split_ws_aux [] cs)
      else split_ws_aux (c # w) cs)"

definition split_ws :: "string \<Rightarrow> string list" where
  "split_ws s = split_ws_aux [] s"

definition confidence_lines :: "env \<Rightarrow> string \<Rightarrow> real list option \<Rightarrow> string" where
  "confidence_lines ev transcript confidence_scores =
     (case confidence_scores of
        None \<Rightarrow> []
      | Some cs \<Rightarrow>
          concat (map (\<lambda>(word, confidence).
                    [CHR 0x0A] @ ''  - '' @ word @ '' ('' @ format_2f ev confidence @ '')'')
                  (zip (split_ws transcript) cs)))"

definition create_transcript_file ::
  "env \<Rightarrow> state \<Rightarrow> string \<Rightarrow> string \<Rightarrow> real list option \<Rightarrow> state" where
  "create_transcript_file ev st file_path transcript confidence_scores =
     (let out = output_file_path file_path
      in if path_exists st out
         then logging (LogInfo (''Output file '' @ out @ '' already exists. Skipping.'')) st
         else case write_file ev st out
                     (base_filename file_path @ '':'' @ [CHR 0x0A] @ transcript
                        @ confidence_lines ev transcript confidence_scores) of
                Inl e \<Rightarrow> logging (LogError (''Error while creating transcript file: '' @ exn_str e)) st
              | Inr st' \<Rightarrow> st')"

section \<open>Recognition and language detection\<close>

text \<open>
  \<^verbatim>\<open>detect_and_route_language\<close> returns the pair (detected language, transcript), or
  (None, None) from each of its three exception handlers.
\<close>

definition detect_and_route_language ::
  "env \<Rightarrow> state \<Rightarrow> string \<Rightarrow> state \<times> string option \<times> string option" where
  "detect_and_route_language ev st file_path =
     (case record_audio ev file_path of
        Inl e \<Rightarrow>
          (case e of
             UnknownValueError \<Rightarrow>
               (logging (LogWarning ''Speech recognition could not understand audio.'') st, None, None)
           | RequestError m \<Rightarrow>
               (logging (LogError (''Could not request results from Google Speech-to-Text service: '' @ m)) st,
                None, None)
           | _ \<Rightarrow> (logging (LogError (''An error occurred: '' @ exn_str e)) st, None, None))
      | Inr audio_data \<Rightarrow>
          (let st1 = st\<lparr>recognized := recognized st @ [audio_data]\<rparr>
           in case recognize_google ev audio_data of
                Inl e \<Rightarrow>
                  (case e of
                     UnknownValueError \<Rightarrow>
                       (logging (LogWarning ''Speech recognition could not understand audio.'') st1,
                        None, None)
                   | RequestError m \<Rightarrow>
                       (logging (LogError
                          (''Could not request results from Google Speech-to-Text service: '' @ m)) st1,
                        None, None)
                   | _ \<Rightarrow> (logging (LogError (''An error occurred: '' @ exn_str e)) st1, None, None))
              | Inr transcript \<Rightarrow>
                  (case detect ev transcript of
                     Inl e \<Rightarrow>
                       (case e of
                          UnknownValueError \<Rightarrow>
                            (logging (LogWarning ''Speech recognition could not understand audio.'') st1,
                             None, None)
                        | RequestError m \<Rightarrow>
                            (logging (LogError
                               (''Could not request results from Google Speech-to-Text service: '' @ m)) st1,
                             None, None)
                        | _ \<Rightarrow>
                            (logging (LogError (''An error occurred: '' @ exn_str e)) st1, None, None))
                   | Inr detected_language \<Rightarrow>
                       (logging (LogInfo (''Detected language: '' @ detected_language)) st1,
                        Some detected_language, Some transcript))))"

section \<open>Processing one file and a directory\<close>

text \<open>The translation step shared by \<^verbatim>\<open>process_file\<close> and \<^verbatim>\<open>process_directory\<close>:
  translate, then open the translation file for writing and write the text with a newline;
  any exception is logged.\<close>

definition write_translation :: "env \<Rightarrow> state \<Rightarrow> string \<Rightarrow> string \<Rightarrow> state" where
  "write_translation ev st file_path transcript =
     (case translate ev transcript of
        Inl e \<Rightarrow> logging (LogError (''Translation failed: '' @ exn_str e)) st
      | Inr translated_text \<Rightarrow>
          (case write_file ev st (translation_file_path file_path) (translated_text @ [CHR 0x0A]) of
             Inl e \<Rightarrow> logging (LogError (''Translation failed: '' @ exn_str e)) st
           | Inr st' \<Rightarrow> st'))"

definition process_file :: "env \<Rightarrow> state \<Rightarrow> string \<Rightarrow> bool \<Rightarrow> state" where
  "process_file ev st file_path translate_to_english =
     (if \<not> is_valid_file st file_path \<or> \<not> is_supported_format file_path
      then logging (LogError (''Input file '' @ file_path
                      @ '' does not exist, is not a file, or has an unsupported format.'')) st
      else case detect_and_route_language ev st file_path of
             (st1, detected_language, None) \<Rightarrow> st1
           | (st1, detected_language, Some transcript) \<Rightarrow>
               (let st2 = create_transcript_file ev st1 file_path transcript None
                in if translate_to_english
                   then write_translation ev st2 file_path transcript
                   else st2))"

text \<open>
  \<^verbatim>\<open>os.walk\<close> takes a path. Its argument in \<^verbatim>\<open>process_directory\<close> is the string
  \<^verbatim>\<open>directory_path\<close> when \<^verbatim>\<open>recursive\<close> is set and the one-element list
  \<^verbatim>\<open>[directory_path]\<close> otherwise; on a list \<^verbatim>\<open>os.fspath\<close> raises TypeError before
  anything is yielded. For a string the triples (root, dirs, files) come from the
  environment. The files the program writes while it walks never have a supported
  extension, so a listing taken before the loop is the listing the loop sees.
\<close>

datatype walk_arg = PathStr string | PathList "string list"

definition os_walk :: "env \<Rightarrow> walk_arg \<Rightarrow> exn + (string \<times> string list \<times> string list) list" where
  "os_walk ev tp =
     (case tp of
        PathStr p \<Rightarrow> Inr (walk ev p)
      | PathList ps \<Rightarrow> Inl (TypeError ''expected str, bytes or os.PathLike object, not list''))"

definition process_entry :: "env \<Rightarrow> bool \<Rightarrow> string \<Rightarrow> state \<Rightarrow> string \<Rightarrow> state" where
  "process_entry ev translate_to_english walk_root st file =
     (let file_path = path_join walk_root file
      in if is_supported_format file_path
         then case detect_and_route_language ev st file_path of
                (st1, detected_language, None) \<Rightarrow> st1
              | (st1, detected_language, Some transcript) \<Rightarrow>
                  (let st2 = create_transcript_file ev st1 file_path transcript None
                   in if translate_to_english
                      then write_translation ev st2 file_path transcript
                      else st2)
         else st)"

definition process_triple ::
  "env \<Rightarrow> bool \<Rightarrow> state \<Rightarrow> string \<times> string list \<times> string list \<Rightarrow> state" where
  "process_triple ev translate_to_english st t =
     (case t of (walk_root, ds, fs) \<Rightarrow>
        foldl (process_entry ev translate_to_english walk_root) st fs)"

definition process_directory :: "env \<Rightarrow> state \<Rightarrow> string \<Rightarrow> bool \<Rightarrow> bool \<Rightarrow> exn + state" where
  "process_directory ev st directory_path recursive translate_to_english =
     (if \<not> isdir st directory_path
      then Inr (logging (LogError (''Directory '' @ directory_path
                           @ '' does not exist or is not a directory.'')) st)
      else case os_walk ev (if recursive then PathStr directory_path
                            else PathList [directory_path]) of
             Inl e \<Rightarrow> Inl e
           | Inr triples \<Rightarrow> Inr (foldl (process_triple ev translate_to_english) st triples))"

text \<open>The parsed command line and \<^verbatim>\<open>main\<close>.\<close>

record args =
  input_file_path :: "string option"
  input_directory_path :: "string option"
  recursive :: bool
  translate_flag :: bool
  noise_reduction :: bool

definition truthy :: "string option \<Rightarrow> bool" where
  "truthy v = (case v of None \<Rightarrow> False | Some s \<Rightarrow> s \<noteq> [])"

definition main :: "env \<Rightarrow> state \<Rightarrow> args \<Rightarrow> exn + state" where
  "main ev st a =
     (if truthy (input_file_path a)
      then Inr (logging (LogInfo ''Processing completed.'')
                  (process_file ev st (the (input_file_path a)) (translate_flag a)))
      else if truthy (input_directory_path a)
      then (case process_directory ev st (the (input_directory_path a)) (recursive a)
                    (translate_flag a) of
              Inl e \<Rightarrow> Inl e
            | Inr st' \<Rightarrow> Inr (logging (LogInfo ''Processing completed.'') st'))
      else Inr (logging (LogInfo ''Processing completed.'') st))"

section \<open>Spectral subtraction\<close>

text \<open>
  \<^verbatim>\<open>reduce_noise\<close> works on NumPy arrays of double-precision numbers. The model
  computes with real and complex numbers, so rounding errors of the floating-point
  operations are left out; what is kept of the floating-point behaviour is the value NaN,
  which NumPy's mean of an empty selection returns (\<open>None\<close> in \<open>np_mean\<close>).

  \<^verbatim>\<open>np.fft.fft\<close> and \<^verbatim>\<open>np.fft.ifft\<close> are the discrete Fourier transform and its
  inverse as NumPy defines them: \<open>A\<^sub>k = \<Sum>\<^sub>m a\<^sub>m exp (-2\<pi>i mk/n)\<close> and
  \<open>a\<^sub>m = (1/n) \<Sum>\<^sub>k A\<^sub>k exp (2\<pi>i mk/n)\<close>, where \<open>exp (i t)\<close> is \<open>cis t\<close>.
  Both raise ValueError on an empty array.
\<close>

definition fft :: "complex list \<Rightarrow> complex list" where
  "fft a = map (\<lambda>k. \<Sum>m\<leftarrow>[0..<length a].
                   a ! m * cis (- (2 * pi * real m * real k / real (length a))))
               [0..<length a]"

definition ifft :: "complex list \<Rightarrow> complex list" where
  "ifft a = map (\<lambda>m. (\<Sum>k\<leftarrow>[0..<length a].
                    a ! k * cis (2 * pi * real m * real k / real (length a)))
                   / of_nat (length a))
                [0..<length a]"

definition np_mean :: "real list \<Rightarrow> real option" where
  "np_mean xs = (if xs = [] then None else Some (sum_list xs / real (length xs)))"

text \<open>\<^verbatim>\<open>magnitude < noise_threshold * np.max(magnitude)\<close>, the boolean indexing
  \<^verbatim>\<open>magnitude[noise_mask]\<close>, and the mean over the selected bins.\<close>

definition noise_mask :: "real list \<Rightarrow> real \<Rightarrow> bool list" where
  "noise_mask magnitude noise_threshold =
     map (\<lambda>m. m < noise_threshold * Max (set magnitude)) magnitude"

definition select :: "real list \<Rightarrow> bool list \<Rightarrow> real list" where
  "select xs bs = map fst (filter snd (zip xs bs))"

definition noise_estimate :: "real list \<Rightarrow> real \<Rightarrow> real option" where
  "noise_estimate magnitude noise_threshold =
     np_mean (select magnitude (noise_mask magnitude noise_threshold))"

definition clean_magnitude :: "real list \<Rightarrow> real \<Rightarrow> real list" where
  "clean_magnitude magnitude noise_spectrum = map (\<lambda>m. max (m - noise_spectrum) 0) magnitude"

definition clean_spectrum :: "real list \<Rightarrow> real list \<Rightarrow> complex list" where
  "clean_spectrum clean_mag phase =
     map (\<lambda>(c, p). complex_of_real c * exp (\<i> * complex_of_real p)) (zip clean_mag phase)"

text \<open>
  \<^verbatim>\<open>.astype(np.int16)\<close> drops the fraction (rounding toward zero) and converts to a
  16-bit integer. NumPy does not check the range: the conversion goes through a wider
  machine integer of which the low 16 bits are kept, so a value outside the int16 range
  comes out reduced modulo \<open>2\<^sup>1\<^sup>6\<close>. What the conversion makes of NaN depends on the
  platform; that value is the parameter \<open>nan_int16\<close> of \<open>reduce_noise\<close>
  (0 on x86-64 and on AArch64).
\<close>

definition trunc :: "real \<Rightarrow> int" where
  "trunc r = (if 0 \<le> r then \<lfloor>r\<rfloor> else \<lceil>r\<rceil>)"

definition astype_int16 :: "real \<Rightarrow> int" where
  "astype_int16 r = sint (word_of_int (trunc r) :: 16 word)"

text \<open>Lines 83 to 87 of the source: subtraction, reconstruction of the spectrum from
  the clean magnitude and the phase, inverse transform, real part, conversion.\<close>

definition reconstruct :: "complex list \<Rightarrow> real \<Rightarrow> real list" where
  "reconstruct spectrum noise_spectrum =
     map Re (ifft (clean_spectrum (clean_magnitude (map cmod spectrum) noise_spectrum)
                     (map Arg spectrum)))"

definition subtract_and_reconstruct :: "complex list \<Rightarrow> real \<Rightarrow> int list" where
  "subtract_and_reconstruct spectrum noise_spectrum =
     map astype_int16 (reconstruct spectrum noise_spectrum)"

text \<open>The magnitude spectrum of a clip, \<^verbatim>\<open>np.abs(np.fft.fft(audio_data))\<close>.\<close>

definition magnitude_of :: "audio \<Rightarrow> real list" where
  "magnitude_of audio_data = map cmod (fft (map of_int audio_data))"

text \<open>
  The spectrum of a real signal is conjugate-symmetric: bin \<open>k\<close> of \<open>n\<close> bins is the
  conjugate of bin \<open>n - k\<close>, and bin 0 is its own partner.
\<close>

definition mirror :: "nat \<Rightarrow> nat \<Rightarrow> nat" where
  "mirror n j = (if j = 0 then 0 else n - j)"

text \<open>
  When no bin is selected the noise estimate is NaN; the subtraction, \<^verbatim>\<open>np.maximum\<close>,
  the product with the phase factor and the inverse transform all propagate it, so every
  sample of the result is the conversion of NaN.
\<close>

definition reduce_noise :: "int \<Rightarrow> audio \<Rightarrow> real \<Rightarrow> exn + audio" where
  "reduce_noise nan_int16 audio_data noise_threshold =
     (if audio_data = []
      then Inl (ValueError ''Invalid number of FFT data points (0) specified.'')
      else
        let spectrum = fft (map of_int audio_data);
            magnitude = map cmod spectrum
        in case noise_estimate magnitude noise_threshold of
             None \<Rightarrow> Inr (replicate (length audio_data) nan_int16)
           | Some noise_spectrum \<Rightarrow> Inr (subtract_and_reconstruct spectrum noise_spectrum))"

section \<open>A concrete world\<close>

text \<open>
  One directory \<^verbatim>\<open>calls\<close> holding an audio file and a text file; a recogniser that
  hears a Hindi greeting in a two-sample clip; a translation file left by an earlier run.
\<close>

definition ex_env :: env where
  "ex_env = \<lparr>record_audio = (\<lambda>p. Inr [41, 39]),
             recognize_google = (\<lambda>a. Inr ''namaste''),
             detect = (\<lambda>t. Inr ''hi''),
             translate = (\<lambda>t. Inr ''hello''),
             walk = (\<lambda>p. [(''calls'', [], [''a.wav'', ''notes.txt''])]),
             open_error = (\<lambda>p. None),
             format_2f = (\<lambda>r. [])\<rparr>"

definition ex_state :: state where
  "ex_state = \<lparr>files = [''a.wav'' \<mapsto> ''RIFF'', ''a.wav-transcript_en.txt'' \<mapsto> ''old''],
               dirs = {''calls''}, log = [], recognized = []\<rparr>"

text \<open>The command line \<^verbatim>\<open>-f a.wav -n\<close>.\<close>

definition ex_args :: args where
  "ex_args = \<lparr>input_file_path = Some ''a.wav'', input_directory_path = None,
              recursive = False, translate_flag = False, noise_reduction = True\<rparr>"

section \<open>The live session\<close>

text \<open>
  The second program listens to the microphone in a loop while a daemon thread polls the
  keyboard. The recogniser (asked for all alternatives, so that an empty result is a
  value and not an exception), the language detector, the translator, the outcome of each
  \<^verbatim>\<open>recognizer.listen\<close> and the state of the escape key at each poll are parameters.
  The state records what was printed and logged and how often the microphone was
  entered and left.
\<close>

record live_env =
  recognize_google_all :: "audio \<Rightarrow> exn + string option"
  detect_text :: "string \<Rightarrow> exn + string"
  translate_from :: "string \<Rightarrow> string \<Rightarrow> exn + string"
  listen :: "nat \<Rightarrow> exn + audio"
  is_pressed :: "nat \<Rightarrow> bool"

record live_state =
  printed :: "string list"
  live_log :: "log_entry list"
  acquired :: nat
  released :: nat

definition print :: "string \<Rightarrow> live_state \<Rightarrow> live_state" where
  "print line st = st\<lparr>printed := printed st @ [line]\<rparr>"

definition release :: "live_state \<Rightarrow> live_state" where
  "release st = st\<lparr>released := released st + 1\<rparr>"

text \<open>The two handlers of \<^verbatim>\<open>detect_and_translate\<close>; any other exception leaves the
  function.\<close>

definition handle_recognition_error :: "live_state \<Rightarrow> exn \<Rightarrow> live_state \<times> (exn + string option)" where
  "handle_recognition_error st e =
     (case e of
        UnknownValueError \<Rightarrow>
          (st\<lparr>live_log := live_log st
                  @ [LogWarning ''Speech recognition could not understand audio.'']\<rparr>, Inr None)
      | RequestError m \<Rightarrow>
          (st\<lparr>live_log := live_log st
                  @ [LogError (''Could not request results from Google Speech-to-Text service: ''
                               @ m)]\<rparr>, Inr None)
      | _ \<Rightarrow> (st, Inl e))"

definition detect_and_translate ::
  "live_env \<Rightarrow> live_state \<Rightarrow> audio \<Rightarrow> live_state \<times> (exn + string option)" where
  "detect_and_translate ev st audio_data =
     (case recognize_google_all ev audio_data of
        Inl e \<Rightarrow> handle_recognition_error st e
      | Inr None \<Rightarrow> (st, Inr None)
      | Inr (Some transcript) \<Rightarrow>
          (case detect_text ev transcript of
             Inl e \<Rightarrow> handle_recognition_error st e
           | Inr detected_language \<Rightarrow>
               if detected_language \<in> set [''hi'', ''mr'']
               then (case translate_from ev transcript detected_language of
                       Inl e \<Rightarrow> handle_recognition_error st e
                     | Inr translated_text \<Rightarrow> (st, Inr (Some translated_text)))
               else (st, Inr (Some transcript))))"

text \<open>
  \<^verbatim>\<open>listen_keyboard\<close>: poll, print and leave the loop when the key is down, otherwise
  sleep and poll again. The first argument bounds the number of polls; \<open>None\<close> means the
  thread is still polling.
\<close>

fun listen_keyboard :: "live_env \<Rightarrow> nat \<Rightarrow> nat \<Rightarrow> string list \<Rightarrow> string list option" where
  "listen_keyboard ev 0 i out = None"
| "listen_keyboard ev (Suc n) i out =
     (if is_pressed ev i then Some (out @ [''Program terminated.''])
      else listen_keyboard ev n (Suc i) out)"

text \<open>
  The \<^verbatim>\<open>while True\<close> loop of \<^verbatim>\<open>main\<close>. Each iteration enters the microphone,
  calibrates, listens, and leaves the microphone at the end of the \<^verbatim>\<open>with\<close> block,
  also when an exception passes through it. The loop has no \<^verbatim>\<open>break\<close> and no
  \<^verbatim>\<open>return\<close>: the result is \<open>None\<close> while it is still running after the given number
  of iterations, and \<open>Some (e, st)\<close> when the exception \<open>e\<close> has ended it.
\<close>

fun capture_loop :: "live_env \<Rightarrow> nat \<Rightarrow> nat \<Rightarrow> live_state \<Rightarrow> (exn \<times> live_state) option" where
  "capture_loop ev 0 i st = None"
| "capture_loop ev (Suc n) i st =
     (let st1 = print ''Speak something...'' (st\<lparr>acquired := acquired st + 1\<rparr>)
      in case listen ev i of
           Inl e \<Rightarrow>
             (case e of
                WaitTimeoutError \<Rightarrow>
                  capture_loop ev n (Suc i) (release (print ''Timeout: No speech detected.'' st1))
              | _ \<Rightarrow> Some (e, release st1))
         | Inr audio_data \<Rightarrow>
             (case detect_and_translate ev (print ''Listening...'' st1) audio_data of
                (st2, Inl e) \<Rightarrow> Some (e, release st2)
              | (st2, Inr None) \<Rightarrow> capture_loop ev n (Suc i) (release st2)
              | (st2, Inr (Some text)) \<Rightarrow>
                  capture_loop ev n (Suc i)
                    (release (if text \<noteq> [] then print (''Transcription: '' @ text) st2 else st2))))"

text \<open>A session in which the escape key is down from the first poll on and nobody
  speaks: every \<^verbatim>\<open>listen\<close> times out.\<close>

definition ex_live :: live_env where
  "ex_live = \<lparr>recognize_google_all = (\<lambda>a. Inr None),
              detect_text = (\<lambda>t. Inr ''en''),
              translate_from = (\<lambda>t l. Inr t),
              listen = (\<lambda>i. Inl WaitTimeoutError),
              is_pressed = (\<lambda>i. True)\<rparr>"

definition live_start :: live_state where
  "live_start = \<lparr>printed = [], live_log = [], acquired = 0, released = 0\<rparr>"

section \<open>Properties of the output names\<close>

lemma is_supported_format_a_wav: "is_supported_format ''a.wav''"
  by (simp add: is_supported_format_def splitext_def rfind_def lower_def lower_char_def
      SUPPORTED_FORMATS_def)

lemma rfind_notin: "c \<notin> set p \<Longrightarrow> rfind c p = - 1"
  by (simp add: rfind_def)

lemma rfind_last: "c \<notin> set b \<Longrightarrow> rfind c (a @ c # b) = int (length a)"
proof -
  assume b: "c \<notin> set b"
  then have "takeWhile (\<lambda>x. x \<noteq> c) (rev b @ c # rev a) = rev b"
    by (subst takeWhile_append2) auto
  then show ?thesis by (simp add: rfind_def)
qed

lemma basename_plain: "CHR ''/'' \<notin> set name \<Longrightarrow> basename name = name"
  by (simp add: basename_def rfind_notin)

lemma basename_dir: "CHR ''/'' \<notin> set name \<Longrightarrow> basename (d @ CHR ''/'' # name) = name"
proof -
  have "nat (int (length d) + 1) = Suc (length d)" by simp
  then show "CHR ''/'' \<notin> set name \<Longrightarrow> basename (d @ CHR ''/'' # name) = name"
    by (simp add: basename_def rfind_last)
qed

lemma basename_path_join:
  assumes "CHR ''/'' \<notin> set name" and "name \<noteq> []"
  shows "basename (path_join d name) = name"
proof -
  from assms have hd: "hd name \<noteq> CHR ''/''"
    by (cases name) auto
  show ?thesis
  proof (cases "d = []")
    case True
    with hd assms show ?thesis by (simp add: path_join_def basename_plain)
  next
    case False
    show ?thesis
    proof (cases "last d = CHR ''/''")
      case True
      with False obtain d' where d: "d = d' @ [CHR ''/'']"
        by (metis append_butlast_last_id)
      from hd assms show ?thesis
        by (simp add: path_join_def basename_dir d)
    next
      case nl: False
      with False hd assms show ?thesis
        by (simp add: path_join_def basename_dir)
    qed
  qed
qed

lemma splitext_stem:
  assumes "CHR ''/'' \<notin> set s" and "\<exists>c\<in>set s. c \<noteq> CHR ''.''"
    and "CHR ''/'' \<notin> set e" and "CHR ''.'' \<notin> set e"
  shows "splitext (s @ CHR ''.'' # e) = (s, CHR ''.'' # e)"
proof -
  have sep: "rfind (CHR ''/'') (s @ CHR ''.'' # e) = - 1"
    using assms by (intro rfind_notin) simp
  have dot: "rfind (CHR ''.'') (s @ CHR ''.'' # e) = int (length s)"
    using assms by (intro rfind_last)
  from assms(2) have ex: "list_ex (\<lambda>c. c \<noteq> CHR ''.'') s"
    by (simp add: list_ex_iff)
  show ?thesis
    by (simp add: splitext_def sep dot ex)
qed

lemma output_file_path_stem:
  assumes "CHR ''/'' \<notin> set s" and "\<exists>c\<in>set s. c \<noteq> CHR ''.''"
    and "CHR ''/'' \<notin> set e" and "CHR ''.'' \<notin> set e"
  shows "output_file_path (path_join d (s @ ''.'' @ e)) = s @ ''-transcript.txt''"
proof -
  have "CHR ''/'' \<notin> set (s @ ''.'' @ e)" using assms by simp
  moreover have "s @ ''.'' @ e \<noteq> []" by simp
  ultimately have "basename (path_join d (s @ ''.'' @ e)) = s @ ''.'' @ e"
    by (rule basename_path_join)
  then show ?thesis
    using splitext_stem [OF assms] by (simp add: output_file_path_def base_filename_def)
qed

text \<open>
  Claim C9 says that two distinct input paths never get the same primary transcript path.
  The name is built from the base name without directory and extension, so two inputs in
  different directories collide, and so do two inputs that differ in the extension.
\<close>

theorem output_file_path_collision:
  "''a/x.wav'' \<noteq> ''b/x.wav'' \<and> output_file_path ''a/x.wav'' = output_file_path ''b/x.wav''
   \<and> ''x.wav'' \<noteq> ''x.mp3'' \<and> output_file_path ''x.wav'' = output_file_path ''x.mp3''"
  by (simp add: output_file_path_def base_filename_def splitext_def basename_def rfind_def)

text \<open>
  Claim C9, amended: the primary transcript path is computed from the input path alone,
  as the stem of its last component followed by \<^verbatim>\<open>-transcript.txt\<close>. For an input
  \<^verbatim>\<open>os.path.join(d, s + '.' + e)\<close>, where the stem \<open>s\<close> has no slash and is not made
  of dots only and the extension \<open>e\<close> has neither slash nor dot, the path is
  \<open>s\<close> followed by \<^verbatim>\<open>-transcript.txt\<close>, whatever the directory and the extension: two
  such inputs get the same primary transcript path exactly when their stems are equal.
  The translation path, the whole input path followed by \<^verbatim>\<open>-transcript_en.txt\<close>, is
  distinct for distinct inputs.
\<close>

theorem output_file_path_eq_iff:
  assumes "CHR ''/'' \<notin> set s" and "\<exists>c\<in>set s. c \<noteq> CHR ''.''"
    and "CHR ''/'' \<notin> set e" and "CHR ''.'' \<notin> set e"
    and "CHR ''/'' \<notin> set s'" and "\<exists>c\<in>set s'. c \<noteq> CHR ''.''"
    and "CHR ''/'' \<notin> set e'" and "CHR ''.'' \<notin> set e'"
  shows "output_file_path (path_join d (s @ ''.'' @ e)) = s @ ''-transcript.txt''
    \<and> (output_file_path (path_join d (s @ ''.'' @ e))
           = output_file_path (path_join d' (s' @ ''.'' @ e')) \<longleftrightarrow> s = s')
    \<and> (translation_file_path p = translation_file_path q \<longleftrightarrow> p = q)"
  using output_file_path_stem [OF assms(1-4), of d] output_file_path_stem [OF assms(5-8), of d']
  by (simp add: translation_file_path_def)

theorem output_file_path_eq_iff_witness:
  "output_file_path ''calls/x.wav'' = ''x-transcript.txt''
   \<and> output_file_path ''calls/x.wav'' = output_file_path ''old/x.mp3''
   \<and> output_file_path ''calls/x.wav'' \<noteq> output_file_path ''calls/y.wav''"
  using output_file_path_eq_iff [of "''x''" "''wav''" "''x''" "''mp3''" "''calls''" "''old''"]
    output_file_path_eq_iff [of "''x''" "''wav''" "''y''" "''wav''" "''calls''" "''calls''"]
  by (auto simp: path_join_def)

section \<open>Properties of the file pipeline\<close>

lemma logging_files [simp]: "files (logging e st) = files st"
  by (simp add: logging_def)

lemma logging_dirs [simp]: "dirs (logging e st) = dirs st"
  by (simp add: logging_def)

lemma create_transcript_file_keeps_existing:
  "path_exists st (output_file_path p) \<Longrightarrow>
   files (create_transcript_file ev st p t c) = files st"
  by (simp add: create_transcript_file_def)

lemma detect_and_route_language_files:
  "files (fst (detect_and_route_language ev st p)) = files st"
  by (simp add: detect_and_route_language_def Let_def split: sum.splits exn.splits)

text \<open>
  Claim C2 says that no output file is ever overwritten, the translation file included.
  \<^verbatim>\<open>create_transcript_file\<close> checks for an existing path before it writes; the
  translation step opens its path for writing with no such check. Here the translation
  file of an earlier run holds \<^verbatim>\<open>old\<close> and is replaced.
\<close>

theorem translation_file_overwritten:
  "files ex_state ''a.wav-transcript_en.txt'' = Some ''old'' \<and>
   files (process_file ex_env ex_state ''a.wav'' True) ''a.wav-transcript_en.txt''
     = Some (''hello'' @ [CHR 0x0A])"
  by (simp add: process_file_def is_valid_file_def isfile_def ex_state_def
      is_supported_format_a_wav detect_and_route_language_def ex_env_def logging_def
      create_transcript_file_def path_exists_def isdir_def write_file_def
      write_translation_def translation_file_path_def output_file_path_def
      base_filename_def splitext_def basename_def rfind_def)

theorem translation_file_overwritten_witness:
  "files (process_file ex_env ex_state ''a.wav'' True) ''a.wav-transcript_en.txt''
     \<noteq> files ex_state ''a.wav-transcript_en.txt''"
  using translation_file_overwritten by simp

lemma process_directory_recursive_returns:
  "\<exists>st'. process_directory ev st d True t = Inr st'"
  by (simp add: process_directory_def os_walk_def)

lemma process_directory_not_recursive_raises:
  "isdir st d \<Longrightarrow>
   process_directory ev st d False t
     = Inl (TypeError ''expected str, bytes or os.PathLike object, not list'')"
  by (simp add: process_directory_def os_walk_def)

text \<open>
  Claim C6 says that directory mode processes the supported files and never raises, in
  particular without the recursive flag. Without the flag \<^verbatim>\<open>os.walk\<close> is called on
  a list and raises TypeError before the first file: nothing is processed.
\<close>

theorem process_directory_not_recursive_TypeError:
  "process_directory ex_env ex_state ''calls'' False False
     = Inl (TypeError ''expected str, bytes or os.PathLike object, not list'')"
  by (simp add: process_directory_def isdir_def ex_state_def os_walk_def)

text \<open>
  Claim C10: when the recogniser returns a transcript and the language detector raises,
  \<^verbatim>\<open>detect_and_route_language\<close> returns (None, None) and \<^verbatim>\<open>process_file\<close> leaves
  every file as it was, whether or not translation was asked for: the transcript is
  dropped.
\<close>

theorem detect_failure_drops_transcript:
  assumes "record_audio ev p = Inr a"
    and "recognize_google ev a = Inr t"
    and "detect ev t = Inl e"
  shows "snd (detect_and_route_language ev st p) = (None, None)
         \<and> files (process_file ev st p tr) = files st"
proof -
  have r: "snd (detect_and_route_language ev st p) = (None, None)"
    using assms by (simp add: detect_and_route_language_def Let_def split: exn.splits)
  obtain st1 l where d: "detect_and_route_language ev st p = (st1, l, None)"
    using r by (cases "detect_and_route_language ev st p") auto
  have "files st1 = files st"
    using detect_and_route_language_files [of ev st p] d by simp
  then have "files (process_file ev st p tr) = files st"
    using d by (simp add: process_file_def)
  with r show ?thesis by simp
qed

theorem detect_failure_drops_transcript_witness:
  "snd (detect_and_route_language
          (ex_env\<lparr>detect := (\<lambda>t. Inl (OtherException ''No features in text.''))\<rparr>)
          ex_state ''a.wav'') = (None, None)
   \<and> files (process_file
          (ex_env\<lparr>detect := (\<lambda>t. Inl (OtherException ''No features in text.''))\<rparr>)
          ex_state ''a.wav'' False) = files ex_state"
  by (rule detect_failure_drops_transcript [where a = "[41, 39]" and t = "''namaste''"])
     (simp_all add: ex_env_def)

section \<open>Evaluating the transforms\<close>

lemma twiddle_pos: "cis (2 * pi * real m * real k / real n) = cis (2 * pi / real n) ^ (m * k)"
  by (simp add: DeMoivre mult_ac)

lemma twiddle_neg:
  "cis (- (2 * pi * real m * real k / real n)) = cis (- (2 * pi / real n)) ^ (m * k)"
  by (simp add: DeMoivre mult_ac)

lemma cis_minus_pi: "cis (- pi) = - 1"
  by (simp add: cis_cnj [symmetric])

lemma fft2: "fft [a, b] = [a + b, a - b]"
  unfolding fft_def twiddle_neg by (simp add: upt_rec cis_minus_pi)

lemma ifft2: "ifft [a, b] = [(a + b) / 2, (a - b) / 2]"
  unfolding ifft_def twiddle_pos by (simp add: upt_rec)

lemma fft4:
  "fft [a, b, c, d]
     = [a + b + c + d, a - \<i> * b - c + \<i> * d, a - b + c - d, a + \<i> * b - c - \<i> * d]"
  unfolding fft_def twiddle_neg by (simp add: upt_rec eval_nat_numeral algebra_simps)

lemma ifft4:
  "ifft [a, b, c, d]
     = [(a + b + c + d) / 4, (a + \<i> * b - c - \<i> * d) / 4, (a - b + c - d) / 4,
        (a - \<i> * b - c + \<i> * d) / 4]"
  unfolding ifft_def twiddle_pos by (simp add: upt_rec eval_nat_numeral algebra_simps)

lemma Arg_of_real: "Arg (complex_of_real r) = (if r < 0 then pi else 0)"
proof (cases "r = 0")
  case True
  then show ?thesis by (simp add: Arg_zero)
next
  case False
  show ?thesis
  proof (cases "r < 0")
    case True
    then have "sgn (complex_of_real r) = cis pi" by (simp add: sgn_eq norm_of_real)
    then have "Arg (complex_of_real r) = pi" by (rule cis_Arg_unique) simp_all
    with True show ?thesis by simp
  next
    case nonneg: False
    with False have "0 < r" by simp
    then have "sgn (complex_of_real r) = cis 0" by (simp add: sgn_eq)
    then have "Arg (complex_of_real r) = 0" by (rule cis_Arg_unique) simp_all
    with nonneg show ?thesis by simp
  qed
qed

lemma Arg_numeral:
  "Arg (numeral n) = 0" "Arg (- numeral n) = pi" "Arg 1 = 0" "Arg (- 1) = pi"
  using Arg_of_real [of "numeral n"] Arg_of_real [of "- numeral n"]
    Arg_of_real [of 1] Arg_of_real [of "- 1"] by simp_all

lemmas reduce_noise_defs = reduce_noise_def subtract_and_reconstruct_def reconstruct_def
  noise_estimate_def
  noise_mask_def select_def np_mean_def clean_magnitude_def clean_spectrum_def
  astype_int16_def trunc_def

lemmas reduce_noise_eval = reduce_noise_defs Arg_of_real Arg_numeral Arg_zero
  cis_conv_exp [symmetric]

lemma reduce_noise_41_39: "reduce_noise 0 [41, 39] 0.05 = Inr [39, 39]"
  by (simp add: reduce_noise_eval fft2 ifft2)

lemma reduce_noise_100_0: "reduce_noise 0 [100, 0] 1 = Inr [0, 0]"
  by (simp add: reduce_noise_eval fft2 ifft2)

lemma reduce_noise_once: "reduce_noise 0 [114, 3, - 109, 3] 0.05 = Inr [109, 1, - 107, 1]"
  by (simp add: reduce_noise_eval fft4 ifft4)

lemma reduce_noise_twice: "reduce_noise 0 [109, 1, - 107, 1] 0.05 = Inr [107, 0, - 106, 0]"
  by (simp add: reduce_noise_eval fft4 ifft4)

lemma magnitude_once: "magnitude_of [109, 1, - 107, 1] = [4, 216, 0, 216]"
  by (simp add: magnitude_of_def fft4)

lemma magnitude_twice: "magnitude_of [107, 0, - 106, 0] = [1, 213, 1, 213]"
  by (simp add: magnitude_of_def fft4)

lemma noise_estimate_once: "noise_estimate (magnitude_of [109, 1, - 107, 1]) 0.05 = Some 2"
  by (simp add: magnitude_once noise_estimate_def noise_mask_def select_def np_mean_def)

lemma reconstruct_once:
  "reconstruct (fft (map of_int [109, 1, - 107, 1])) 2 = [215 / 2, 1 / 2, - 213 / 2, 1 / 2]"
  by (simp add: reduce_noise_eval fft4 ifft4)

lemma magnitude_100_0: "magnitude_of [100, 0] = [100, 100]"
  by (simp add: magnitude_of_def fft2)

section \<open>Properties of spectral subtraction\<close>

lemma length_fft: "length (fft a) = length a"
  by (simp add: fft_def)

lemma length_ifft: "length (ifft a) = length a"
  by (simp add: ifft_def)

lemma length_subtract_and_reconstruct: "length (subtract_and_reconstruct s n) = length s"
  by (simp add: subtract_and_reconstruct_def reconstruct_def length_ifft clean_spectrum_def
      clean_magnitude_def)

lemma reduce_noise_returns:
  "audio_data \<noteq> [] \<Longrightarrow>
   \<exists>c. reduce_noise v audio_data t = Inr c \<and> length c = length audio_data"
  by (simp add: reduce_noise_def Let_def length_subtract_and_reconstruct length_fft
      split: option.splits)

lemma select_map: "select xs (map P xs) = filter P xs"
  by (induction xs) (simp_all add: select_def)

lemma noise_estimate_None_iff:
  "noise_estimate mag t = None \<longleftrightarrow> (\<forall>m\<in>set mag. \<not> m < t * Max (set mag))"
  by (simp add: noise_estimate_def noise_mask_def select_map np_mean_def filter_empty_conv)

lemma noise_estimate_nonneg:
  assumes "noise_estimate mag t = Some ns" and "\<forall>m\<in>set mag. 0 \<le> m"
  shows "0 \<le> ns"
proof -
  let ?sel = "filter (\<lambda>m. m < t * Max (set mag)) mag"
  from assms(1) have ns: "ns = sum_list ?sel / real (length ?sel)"
    by (simp add: noise_estimate_def noise_mask_def select_map np_mean_def split: if_splits)
  have "0 \<le> sum_list ?sel"
    using assms(2) by (intro sum_list_nonneg) simp
  then show ?thesis by (simp add: ns)
qed

lemma Max_all_eq:
  fixes xs :: "real list"
  assumes "xs \<noteq> []"
  shows "(\<forall>m\<in>set xs. \<not> m < Max (set xs)) \<longleftrightarrow> (\<forall>m\<in>set xs. m = Max (set xs))"
proof -
  have "\<And>m. m \<in> set xs \<Longrightarrow> m \<le> Max (set xs)" by simp
  then show ?thesis by (metis less_le not_less)
qed

text \<open>
  Claim C5: for every non-empty clip and every threshold (in particular every threshold in
  the interval (0, 1]), \<^verbatim>\<open>reduce_noise\<close> returns, and the returned clip has as many samples
  as the input. The function reads nothing but its arguments and changes no state: in the
  model it is a function of the input, the threshold and the platform's conversion of NaN
  alone.
\<close>

theorem reduce_noise_length:
  assumes "audio_data \<noteq> []" and "0 < noise_threshold" and "noise_threshold \<le> 1"
  shows "\<exists>clean_audio. reduce_noise v audio_data noise_threshold = Inr clean_audio
           \<and> length clean_audio = length audio_data"
  using reduce_noise_returns [OF assms(1)] by blast

theorem reduce_noise_length_witness:
  "\<exists>clean_audio. reduce_noise 0 [41, 39] 0.05 = Inr clean_audio
     \<and> length clean_audio = length [41, 39 :: int]"
  by (rule reduce_noise_length) simp_all

text \<open>
  Claim C3 says that with no bin strictly below the threshold times the maximum,
  \<^verbatim>\<open>reduce_noise\<close> falls back to a noise estimate of zero. For the clip [100, 0] both
  bins have magnitude 100, so at threshold 1.0 nothing is selected: the estimate is NaN,
  and the result is the conversion of NaN in every sample (here 0), where an estimate of
  zero would have given back [100, 0].
\<close>

theorem reduce_noise_no_zero_fallback:
  "noise_estimate (magnitude_of [100, 0]) 1 = None
   \<and> reduce_noise 0 [100, 0] 1 = Inr [0, 0]
   \<and> subtract_and_reconstruct (fft (map of_int [100, 0])) 0 = [100, 0]"
  by (simp add: magnitude_100_0 noise_estimate_None_iff reduce_noise_100_0)
     (simp add: reduce_noise_eval fft2 ifft2)

text \<open>
  Claim C3, amended: for every non-empty clip and every threshold \<^verbatim>\<open>reduce_noise\<close>
  returns without raising. When no bin's magnitude is strictly below the threshold times
  the maximum magnitude, the noise estimate is NaN, not zero, and every sample of the
  result is the conversion of NaN, whatever the input was. At threshold 1.0 this happens
  exactly when all bins have the same magnitude: a bin at the maximum is never counted
  as noise.
\<close>

theorem reduce_noise_empty_selection:
  assumes "audio_data \<noteq> []"
  shows "(\<exists>c. reduce_noise v audio_data t = Inr c)
    \<and> ((\<forall>m\<in>set (magnitude_of audio_data). \<not> m < t * Max (set (magnitude_of audio_data))) \<longrightarrow>
         noise_estimate (magnitude_of audio_data) t = None
         \<and> reduce_noise v audio_data t = Inr (replicate (length audio_data) v))
    \<and> (noise_estimate (magnitude_of audio_data) 1 = None \<longleftrightarrow>
         (\<forall>m\<in>set (magnitude_of audio_data). m = Max (set (magnitude_of audio_data))))"
proof (intro conjI impI)
  show "\<exists>c. reduce_noise v audio_data t = Inr c"
    using reduce_noise_returns [OF assms, of v t] by blast
next
  assume "\<forall>m\<in>set (magnitude_of audio_data). \<not> m < t * Max (set (magnitude_of audio_data))"
  then show none: "noise_estimate (magnitude_of audio_data) t = None"
    by (simp add: noise_estimate_None_iff)
  then show "reduce_noise v audio_data t = Inr (replicate (length audio_data) v)"
    using assms by (simp add: reduce_noise_def magnitude_of_def)
next
  have ne: "magnitude_of audio_data \<noteq> []"
    using assms by (simp add: magnitude_of_def fft_def)
  show "noise_estimate (magnitude_of audio_data) 1 = None \<longleftrightarrow>
         (\<forall>m\<in>set (magnitude_of audio_data). m = Max (set (magnitude_of audio_data)))"
    using Max_all_eq [OF ne] by (simp add: noise_estimate_None_iff)
qed

theorem reduce_noise_empty_selection_witness:
  "reduce_noise 7 [100, 0] 1 = Inr [7, 7] \<and> noise_estimate (magnitude_of [100, 0]) 1 = None"
  using reduce_noise_empty_selection [of "[100, 0]" 7 1] by (simp add: magnitude_100_0)

section \<open>The conversion to 16-bit integers\<close>

lemma astype_int16_mod: "astype_int16 r = (trunc r + 32768) mod 65536 - 32768"
  by (simp add: astype_int16_def sint_sbintrunc' signed_take_bit_eq_take_bit_shift
      take_bit_eq_mod)

lemma mod_wrap_up:
  fixes t :: int
  assumes "32767 < t" "t < 98304"
  shows "(t + 32768) mod 65536 - 32768 = t - 65536"
proof -
  have "(t + 32768) mod 65536 = (t + 32768 - 65536) mod 65536"
    by (metis minus_mod_self2)
  also have "\<dots> = t + 32768 - 65536"
    using assms by (intro mod_pos_pos_trivial) simp_all
  finally show ?thesis by simp
qed

lemma mod_wrap_down:
  fixes t :: int
  assumes "- 98305 < t" "t < - 32768"
  shows "(t + 32768) mod 65536 - 32768 = t + 65536"
proof -
  have "(t + 32768) mod 65536 = (t + 32768 + 65536) mod 65536"
    by (metis mod_add_self2)
  also have "\<dots> = t + 32768 + 65536"
    using assms by (intro mod_pos_pos_trivial) simp_all
  finally show ?thesis by simp
qed

text \<open>
  Claim C4 says that a reconstructed value outside the 16-bit range is clamped to the
  nearest bound. For the clip [40000, -39000] the reconstructed samples are 39000 and
  -39000; they are stored as -26536 and 26536, not as 32767 and -32768.
\<close>

theorem reduce_noise_wraps:
  "reconstruct (fft (map of_int [40000, - 39000])) 1000 = [39000, - 39000]
   \<and> reduce_noise 0 [40000, - 39000] 0.05 = Inr [- 26536, 26536]"
  by (simp add: reduce_noise_eval fft2 ifft2)

text \<open>
  Claim C4, amended: after the inverse transform the real component is cut toward zero
  and converted to a 16-bit integer without saturation. A value whose integer part lies
  in [-32768, 32767] is stored as that integer part; a value outside is not clamped but
  reduced modulo 65536 into that range, so one just above the range comes out 65536
  lower and one just below comes out 65536 higher. Every sample \<^verbatim>\<open>reduce_noise\<close>
  returns under a defined noise estimate is such a conversion of the reconstructed value.
\<close>

theorem astype_int16_no_saturation:
  "astype_int16 r = (trunc r + 32768) mod 65536 - 32768
   \<and> (- 32768 \<le> trunc r \<and> trunc r \<le> 32767 \<longrightarrow> astype_int16 r = trunc r)
   \<and> (32767 < trunc r \<and> trunc r < 98304 \<longrightarrow> astype_int16 r = trunc r - 65536)
   \<and> (- 98305 < trunc r \<and> trunc r < - 32768 \<longrightarrow> astype_int16 r = trunc r + 65536)
   \<and> (audio_data \<noteq> [] \<and> noise_estimate (magnitude_of audio_data) t = Some ns \<longrightarrow>
        reduce_noise v audio_data t
          = Inr (map astype_int16 (reconstruct (fft (map of_int audio_data)) ns)))"
proof (intro conjI impI)
  show "astype_int16 r = (trunc r + 32768) mod 65536 - 32768"
    by (rule astype_int16_mod)
  show "astype_int16 r = trunc r" if "- 32768 \<le> trunc r \<and> trunc r \<le> 32767"
    using that by (simp add: astype_int16_mod mod_pos_pos_trivial)
  show "astype_int16 r = trunc r - 65536" if "32767 < trunc r \<and> trunc r < 98304"
    using that mod_wrap_up [of "trunc r"] by (simp add: astype_int16_mod)
  show "astype_int16 r = trunc r + 65536" if "- 98305 < trunc r \<and> trunc r < - 32768"
    using that mod_wrap_down [of "trunc r"] by (simp add: astype_int16_mod)
  show "reduce_noise v audio_data t
          = Inr (map astype_int16 (reconstruct (fft (map of_int audio_data)) ns))"
    if "audio_data \<noteq> [] \<and> noise_estimate (magnitude_of audio_data) t = Some ns"
    using that by (simp add: reduce_noise_def magnitude_of_def subtract_and_reconstruct_def)
qed

theorem astype_int16_no_saturation_witness:
  "astype_int16 39000.5 = - 26536 \<and> astype_int16 (- 12.75) = - 12"
  using astype_int16_no_saturation [of "39000.5"] astype_int16_no_saturation [of "- 12.75"]
  by (simp add: trunc_def)

section \<open>Applying the reduction twice\<close>

text \<open>
  The transform of the real part of an inverse transform: with \<open>n\<close> bins, bin \<open>k\<close> of
  \<open>fft (Re (ifft Y))\<close> is the mean of \<open>Y\<^sub>k\<close> and the conjugate of its partner bin. The
  sums over the roots of unity are geometric sums.
\<close>

lemma fft_nth:
  "k < length a \<Longrightarrow>
   fft a ! k = (\<Sum>m<length a. a ! m * cis (- (2 * pi * real m * real k / real (length a))))"
  by (simp add: fft_def interv_sum_list_conv_sum_set_nat atLeast0LessThan)

lemma ifft_nth:
  "m < length a \<Longrightarrow>
   ifft a ! m = (\<Sum>k<length a. a ! k * cis (2 * pi * real m * real k / real (length a)))
                  / of_nat (length a)"
  by (simp add: ifft_def interv_sum_list_conv_sum_set_nat atLeast0LessThan)

lemma cis_root_sum:
  fixes d :: int
  assumes "0 < n"
  shows "(\<Sum>m<n. cis (2 * pi * real m * of_int d / real n))
           = (if int n dvd d then of_nat n else 0)"
proof -
  let ?r = "cis (2 * pi * of_int d / real n)"
  have pw: "cis (2 * pi * real m * of_int d / real n) = ?r ^ m" for m
    by (simp add: DeMoivre mult_ac)
  have "real n * (2 * pi * of_int d / real n) = 2 * pi * of_int d"
    using assms by simp
  then have rn: "?r ^ n = 1"
    by (simp add: DeMoivre cis_multiple_2pi del: times_divide_eq_right)
  show ?thesis
  proof (cases "int n dvd d")
    case True
    then obtain q where q: "d = int n * q" ..
    have "2 * pi * of_int d / real n = 2 * pi * of_int q"
      using assms by (simp add: q)
    then have "?r = 1"
      by (simp add: cis_multiple_2pi)
    then show ?thesis using True by (simp add: pw)
  next
    case False
    have "?r \<noteq> 1"
    proof
      assume "?r = 1"
      then have "cos (2 * pi * of_int d / real n) = 1"
        by (simp add: complex_eq_iff)
      then obtain j :: int where "2 * pi * of_int d / real n = of_int j * 2 * pi"
        using cos_one_2pi_int by blast
      then have "real_of_int d = of_int j * real n"
        using assms by (simp add: field_simps)
      then have "real_of_int d = real_of_int (j * int n)" by simp
      then have "d = j * int n" by (simp only: of_int_eq_iff)
      with False show False by simp
    qed
    then have "(\<Sum>m<n. ?r ^ m) = 0"
      by (simp add: geometric_sum rn)
    then show ?thesis using False by (simp add: pw)
  qed
qed


lemma dvd_diff_index:
  assumes "k < n" and "j < n"
  shows "int n dvd (int k - int j) \<longleftrightarrow> k = j"
proof
  assume d: "int n dvd (int k - int j)"
  show "k = j"
  proof (rule ccontr)
    assume "k \<noteq> j"
    then have "int k - int j \<noteq> 0" by simp
    from dvd_imp_le_int [OF this d] assms show False by simp
  qed
qed simp

lemma dvd_sum_index:
  assumes "k < n" and "j < n"
  shows "int n dvd - (int k + int j) \<longleftrightarrow> k = mirror n j"
proof
  assume "int n dvd - (int k + int j)"
  then have "int n dvd int (k + j)" by (simp only: dvd_minus_iff of_nat_add)
  then have "n dvd k + j" by (simp only: of_nat_dvd_iff)
  then obtain q where q: "k + j = n * q" ..
  show "k = mirror n j"
  proof (cases q)
    case 0
    with q show ?thesis by (simp add: mirror_def)
  next
    case (Suc r)
    show ?thesis
    proof (cases r)
      case 0
      with Suc q assms show ?thesis by (auto simp: mirror_def)
    next
      case (Suc t)
      with \<open>q = Suc r\<close> q have "n + n \<le> k + j" by simp
      with assms show ?thesis by simp
    qed
  qed
next
  assume "k = mirror n j"
  with assms show "int n dvd - (int k + int j)"
    by (auto simp: mirror_def of_nat_diff)
qed

lemma sum_swap_scaled:
  fixes Y :: "nat \<Rightarrow> complex"
  shows "(\<Sum>m<n. (\<Sum>k<n. Y k * A m k) / c * B m) = (\<Sum>k<n. Y k * (\<Sum>m<n. A m k * B m) / c)"
proof -
  have "(\<Sum>m<n. (\<Sum>k<n. Y k * A m k) / c * B m) = (\<Sum>m<n. \<Sum>k<n. Y k * (A m k * B m) / c)"
    by (simp add: sum_distrib_right sum_divide_distrib mult.assoc)
  also have "\<dots> = (\<Sum>k<n. \<Sum>m<n. Y k * (A m k * B m) / c)"
    by (rule sum.swap)
  also have "\<dots> = (\<Sum>k<n. Y k * (\<Sum>m<n. A m k * B m) / c)"
    by (simp add: sum_distrib_left sum_divide_distrib)
  finally show ?thesis .
qed

lemma twiddle_sum_diff:
  assumes "k < n" and "j < n"
  shows "(\<Sum>m<n. cis (2 * pi * real m * real k / real n) * cis (- (2 * pi * real m * real j / real n)))
           = (if k = j then of_nat n else 0)"
proof -
  have n: "0 < n" using assms by simp
  have a: "2 * pi * real m * real k / real n + - (2 * pi * real m * real j / real n)
         = 2 * pi * real m * of_int (int k - int j) / real n" for m
    by (simp add: right_diff_distrib diff_divide_distrib)
  have "(\<Sum>m<n. cis (2 * pi * real m * real k / real n) * cis (- (2 * pi * real m * real j / real n)))
      = (\<Sum>m<n. cis (2 * pi * real m * of_int (int k - int j) / real n))"
    unfolding cis_mult a ..
  also have "\<dots> = (if int n dvd (int k - int j) then of_nat n else 0)"
    by (rule cis_root_sum [OF n])
  also have "\<dots> = (if k = j then of_nat n else 0)"
    by (simp only: dvd_diff_index [OF assms])
  finally show ?thesis .
qed

lemma twiddle_sum_add:
  assumes "k < n" and "j < n"
  shows "(\<Sum>m<n. cnj (cis (2 * pi * real m * real k / real n))
                   * cis (- (2 * pi * real m * real j / real n)))
           = (if k = mirror n j then of_nat n else 0)"
proof -
  have n: "0 < n" using assms by simp
  have a: "- (2 * pi * real m * real k / real n) + - (2 * pi * real m * real j / real n)
         = 2 * pi * real m * of_int (- (int k + int j)) / real n" for m
    by (simp add: right_diff_distrib diff_divide_distrib minus_divide_left [symmetric])
  have "(\<Sum>m<n. cnj (cis (2 * pi * real m * real k / real n))
                   * cis (- (2 * pi * real m * real j / real n)))
      = (\<Sum>m<n. cis (2 * pi * real m * of_int (- (int k + int j)) / real n))"
    unfolding cis_cnj cis_mult a ..
  also have "\<dots> = (if int n dvd - (int k + int j) then of_nat n else 0)"
    by (rule cis_root_sum [OF n])
  also have "\<dots> = (if k = mirror n j then of_nat n else 0)"
    by (simp only: dvd_sum_index [OF assms])
  finally show ?thesis .
qed

lemma fft_ifft_nth:
  assumes "j < length Y"
  shows "(\<Sum>m<length Y. ifft Y ! m * cis (- (2 * pi * real m * real j / real (length Y)))) = Y ! j"
proof -
  let ?n = "length Y"
  have n: "0 < ?n" using assms by (cases Y) simp_all
  have "(\<Sum>m<?n. ifft Y ! m * cis (- (2 * pi * real m * real j / real ?n)))
      = (\<Sum>m<?n. (\<Sum>k<?n. Y ! k * cis (2 * pi * real m * real k / real ?n)) / of_nat ?n
                  * cis (- (2 * pi * real m * real j / real ?n)))"
    by (rule sum.cong [OF refl]) (simp only: lessThan_iff ifft_nth)
  also have "\<dots> = (\<Sum>k<?n. Y ! k * (\<Sum>m<?n. cis (2 * pi * real m * real k / real ?n)
                            * cis (- (2 * pi * real m * real j / real ?n))) / of_nat ?n)"
    by (rule sum_swap_scaled)
  also have "\<dots> = (\<Sum>k<?n. Y ! k * (if k = j then of_nat ?n else 0) / of_nat ?n)"
    by (rule sum.cong [OF refl]) (simp only: lessThan_iff twiddle_sum_diff [OF _ assms])
  also have "\<dots> = (\<Sum>k<?n. if k = j then Y ! k else 0)"
    using n by (intro sum.cong refl) simp
  also have "\<dots> = Y ! j"
    using assms by simp
  finally show ?thesis .
qed

lemma fft_cnj_ifft_nth:
  assumes "j < length Y"
  shows "(\<Sum>m<length Y. cnj (ifft Y ! m) * cis (- (2 * pi * real m * real j / real (length Y))))
           = cnj (Y ! mirror (length Y) j)"
proof -
  let ?n = "length Y"
  have n: "0 < ?n" using assms by (cases Y) simp_all
  have mj: "mirror ?n j < ?n" using assms by (auto simp: mirror_def)
  have "(\<Sum>m<?n. cnj (ifft Y ! m) * cis (- (2 * pi * real m * real j / real ?n)))
      = (\<Sum>m<?n. (\<Sum>k<?n. cnj (Y ! k) * cnj (cis (2 * pi * real m * real k / real ?n)))
                    / of_nat ?n * cis (- (2 * pi * real m * real j / real ?n)))"
    by (rule sum.cong [OF refl])
      (simp only: lessThan_iff ifft_nth cnj_sum complex_cnj_mult complex_cnj_divide
        complex_cnj_of_nat)
  also have "\<dots> = (\<Sum>k<?n. cnj (Y ! k) * (\<Sum>m<?n. cnj (cis (2 * pi * real m * real k / real ?n))
                            * cis (- (2 * pi * real m * real j / real ?n))) / of_nat ?n)"
    by (rule sum_swap_scaled)
  also have "\<dots> = (\<Sum>k<?n. cnj (Y ! k) * (if k = mirror ?n j then of_nat ?n else 0) / of_nat ?n)"
    by (rule sum.cong [OF refl]) (simp only: lessThan_iff twiddle_sum_add [OF _ assms])
  also have "\<dots> = (\<Sum>k<?n. if k = mirror ?n j then cnj (Y ! k) else 0)"
    using n by (intro sum.cong refl) simp
  also have "\<dots> = cnj (Y ! mirror ?n j)"
    using mj by simp
  finally show ?thesis .
qed

lemma fft_Re_ifft:
  assumes "j < length Y"
  shows "fft (map complex_of_real (map Re (ifft Y))) ! j
           = (Y ! j + cnj (Y ! mirror (length Y) j)) / 2"
proof -
  let ?n = "length Y"
  let ?c = "\<lambda>m. cis (- (2 * pi * real m * real j / real ?n))"
  have re: "complex_of_real (Re z) = (z + cnj z) / 2" for z
    by (simp add: complex_eq_iff)
  have "fft (map complex_of_real (map Re (ifft Y))) ! j
      = (\<Sum>m<?n. complex_of_real (Re (ifft Y ! m)) * ?c m)"
    using assms by (simp add: fft_nth length_ifft)
  also have "\<dots> = (\<Sum>m<?n. (ifft Y ! m * ?c m + cnj (ifft Y ! m) * ?c m) / 2)"
    by (rule sum.cong [OF refl]) (simp only: re add_divide_distrib distrib_right times_divide_eq_left)
  also have "\<dots> = ((\<Sum>m<?n. ifft Y ! m * ?c m) + (\<Sum>m<?n. cnj (ifft Y ! m) * ?c m)) / 2"
    by (simp only: sum_divide_distrib [symmetric] sum.distrib)
  also have "\<dots> = (Y ! j + cnj (Y ! mirror ?n j)) / 2"
    by (simp only: fft_ifft_nth [OF assms] fft_cnj_ifft_nth [OF assms])
  finally show ?thesis .
qed

lemma twiddle_mirror:
  assumes "j < n"
  shows "cis (- (2 * pi * real m * real (mirror n j) / real n))
           = cnj (cis (- (2 * pi * real m * real j / real n)))"
proof (cases "j = 0")
  case True
  then show ?thesis by (simp add: mirror_def)
next
  case False
  have n: "0 < n" using assms by simp
  have "- (2 * pi * real m * real (n - j) / real n)
          = 2 * pi * real m * real j / real n + 2 * pi * (- real m)"
    using assms n by (simp add: of_nat_diff field_simps)
  then have "cis (- (2 * pi * real m * real (n - j) / real n))
          = cis (2 * pi * real m * real j / real n) * cis (2 * pi * (- real m))"
    by (simp only: cis_mult)
  also have "cis (2 * pi * (- real m)) = 1"
    by (rule cis_multiple_2pi) simp
  finally show ?thesis using False by (simp add: mirror_def cis_cnj)
qed

lemma fft_real_mirror:
  assumes "j < length xs"
  shows "fft (map of_int xs) ! mirror (length xs) j = cnj (fft (map of_int xs) ! j)"
proof -
  let ?n = "length xs"
  have mj: "mirror ?n j < ?n" using assms by (auto simp: mirror_def)
  have "fft (map of_int xs) ! mirror ?n j
      = (\<Sum>m<?n. of_int (xs ! m) * cis (- (2 * pi * real m * real (mirror ?n j) / real ?n)))"
    using mj by (simp add: fft_nth)
  also have "\<dots> = (\<Sum>m<?n. of_int (xs ! m) * cnj (cis (- (2 * pi * real m * real j / real ?n))))"
    by (simp only: twiddle_mirror [OF assms])
  also have "\<dots> = cnj (\<Sum>m<?n. of_int (xs ! m) * cis (- (2 * pi * real m * real j / real ?n)))"
    by (simp only: cnj_sum complex_cnj_mult complex_cnj_of_int)
  also have "\<dots> = cnj (fft (map of_int xs) ! j)"
    using assms by (simp add: fft_nth)
  finally show ?thesis .
qed

lemma magnitude_of_mirror:
  assumes "j < length xs"
  shows "magnitude_of xs ! mirror (length xs) j = magnitude_of xs ! j"
proof -
  have mj: "mirror (length xs) j < length xs" using assms by (auto simp: mirror_def)
  show ?thesis
    using assms mj by (simp add: magnitude_of_def length_fft fft_real_mirror)
qed

lemma length_magnitude_of: "length (magnitude_of xs) = length xs"
  by (simp add: magnitude_of_def length_fft)

lemma clean_spectrum_nth:
  assumes "k < length mag" and "length ph = length mag"
  shows "cmod (clean_spectrum (clean_magnitude mag ns) ph ! k) = max (mag ! k - ns) 0"
  using assms by (simp add: clean_spectrum_def clean_magnitude_def norm_mult)

lemma reconstruct_spectrum_bounded:
  assumes "k < length xs"
  shows "cmod (fft (map complex_of_real (reconstruct (fft (map of_int xs)) ns)) ! k)
           \<le> max (magnitude_of xs ! k - ns) 0"
proof -
  let ?n = "length xs"
  let ?Y = "clean_spectrum (clean_magnitude (magnitude_of xs) ns) (map Arg (fft (map of_int xs)))"
  have lenY: "length ?Y = ?n"
    by (simp add: clean_spectrum_def clean_magnitude_def length_magnitude_of length_fft)
  have mj: "mirror ?n k < ?n" using assms by (auto simp: mirror_def)
  have rec: "reconstruct (fft (map of_int xs)) ns = map Re (ifft ?Y)"
    by (simp add: reconstruct_def magnitude_of_def)
  have Yk: "cmod (?Y ! i) = max (magnitude_of xs ! i - ns) 0" if "i < ?n" for i
    using that by (intro clean_spectrum_nth) (simp_all add: length_magnitude_of length_fft)
  have "fft (map complex_of_real (map Re (ifft ?Y))) ! k = (?Y ! k + cnj (?Y ! mirror ?n k)) / 2"
    using fft_Re_ifft [of k ?Y] assms by (simp only: lenY)
  then have "cmod (fft (map complex_of_real (map Re (ifft ?Y))) ! k)
               = cmod ((?Y ! k + cnj (?Y ! mirror ?n k)) / 2)"
    by (simp only:)
  also have "\<dots> = cmod (?Y ! k + cnj (?Y ! mirror ?n k)) / 2"
    by (simp add: norm_divide)
  also have "\<dots> \<le> (cmod (?Y ! k) + cmod (cnj (?Y ! mirror ?n k))) / 2"
    by (intro divide_right_mono norm_triangle_ineq) simp
  also have "\<dots> = max (magnitude_of xs ! k - ns) 0"
    by (simp only: complex_mod_cnj Yk [OF assms] Yk [OF mj] magnitude_of_mirror [OF assms]) simp
  finally show ?thesis by (simp only: rec)
qed

lemma trunc_error: "\<bar>real_of_int (trunc r) - r\<bar> < 1"
  by (simp add: trunc_def) linarith

lemma astype_int16_in_range:
  assumes "- 32769 < r" and "r < 32768"
  shows "astype_int16 r = trunc r"
proof -
  have "- 32768 \<le> trunc r" "trunc r \<le> 32767"
    using assms by (simp_all add: trunc_def)
  then show ?thesis
    by (simp add: astype_int16_mod)
qed

lemma fft_truncated_close:
  assumes "k < length ys"
  shows "cmod (fft (map of_int (map trunc ys)) ! k - fft (map complex_of_real ys) ! k)
           < real (length ys)"
proof -
  let ?n = "length ys"
  let ?c = "\<lambda>m. cis (- (2 * pi * real m * real k / real ?n))"
  have "fft (map of_int (map trunc ys)) ! k - fft (map complex_of_real ys) ! k
      = (\<Sum>m<?n. (of_int (trunc (ys ! m)) - complex_of_real (ys ! m)) * ?c m)"
    using assms by (simp add: fft_nth sum_subtractf left_diff_distrib)
  also have "cmod \<dots> \<le> (\<Sum>m<?n. cmod ((of_int (trunc (ys ! m)) - complex_of_real (ys ! m)) * ?c m))"
    by (rule norm_sum)
  also have "\<dots> = (\<Sum>m<?n. \<bar>real_of_int (trunc (ys ! m)) - ys ! m\<bar>)"
  proof (rule sum.cong [OF refl])
    fix m
    have "of_int (trunc (ys ! m)) - complex_of_real (ys ! m)
            = complex_of_real (real_of_int (trunc (ys ! m)) - ys ! m)"
      by simp
    then show "cmod ((of_int (trunc (ys ! m)) - complex_of_real (ys ! m)) * ?c m)
             = \<bar>real_of_int (trunc (ys ! m)) - ys ! m\<bar>"
      by (simp only: norm_mult norm_cis norm_of_real mult_1_right)
  qed
  also have "\<dots> < (\<Sum>m<?n. 1)"
    using assms by (intro sum_strict_mono) (auto simp: trunc_error)
  also have "\<dots> = real ?n" by simp
  finally show ?thesis .
qed

text \<open>
  Claim C8 says that a second application never raises a bin of the spectrum above its
  magnitude after the first. For the clip [114, 3, -109, 3] at the default threshold the
  first pass reconstructs [109.75, 1.25, -107.25, 1.25] and returns [109, 1, -107, 1],
  whose bin 2 has magnitude 0; the second pass reconstructs [107.5, 0.5, -106.5, 0.5],
  the conversion cuts the fractions, and the result [107, 0, -106, 0] has magnitude 1 in
  bin 2.
\<close>

theorem reduce_noise_twice_raises_bin:
  "reduce_noise 0 [114, 3, - 109, 3] 0.05 = Inr [109, 1, - 107, 1]
   \<and> reduce_noise 0 [109, 1, - 107, 1] 0.05 = Inr [107, 0, - 106, 0]
   \<and> magnitude_of [109, 1, - 107, 1] ! 2 < magnitude_of [107, 0, - 106, 0] ! 2"
  using reduce_noise_once reduce_noise_twice by (simp add: magnitude_once magnitude_twice)

text \<open>
  Claim C8, amended: when a first pass has returned a clip, the second pass with the same
  threshold returns a clip of the same length. If the second pass has no noise estimate
  (NaN), every sample of its result is the conversion of NaN. Otherwise the estimate is
  not negative, and in every bin the spectrum of the second pass's reconstructed signal,
  taken before the conversion to 16-bit integers, has a magnitude that is at most the
  bin's magnitude after the first pass. The conversion cuts each sample by less than 1:
  when no reconstructed sample leaves the 16-bit range, every bin of the spectrum of the
  twice-reduced clip exceeds the bin's magnitude after the first pass by less than the
  number of samples.
\<close>

theorem reduce_noise_twice_bounded:
  assumes "reduce_noise v audio_data t = Inr once" and "k < length audio_data"
  shows "\<exists>twice. reduce_noise v once t = Inr twice \<and> length twice = length audio_data
    \<and> (noise_estimate (magnitude_of once) t = None \<longrightarrow>
          twice = replicate (length audio_data) v)
    \<and> (\<forall>ns. noise_estimate (magnitude_of once) t = Some ns \<longrightarrow>
          0 \<le> ns
        \<and> cmod (fft (map complex_of_real (reconstruct (fft (map of_int once)) ns)) ! k)
            \<le> magnitude_of once ! k
        \<and> ((\<forall>r\<in>set (reconstruct (fft (map of_int once)) ns). - 32769 < r \<and> r < 32768) \<longrightarrow>
              magnitude_of twice ! k < magnitude_of once ! k + real (length audio_data)))"
proof -
  from assms(1) have ne: "audio_data \<noteq> []"
    by (auto simp: reduce_noise_def)
  from reduce_noise_returns [OF ne, of v t] assms(1) have len: "length once = length audio_data"
    by simp
  with ne have ne1: "once \<noteq> []" by auto
  from assms(2) len have k: "k < length once" by simp
  have pos: "\<forall>m\<in>set (magnitude_of once). 0 \<le> m"
    by (auto simp: magnitude_of_def)
  have m0: "0 \<le> magnitude_of once ! k"
    using pos k by (simp add: length_magnitude_of)
  show ?thesis
  proof (cases "noise_estimate (magnitude_of once) t")
    case None
    then have "reduce_noise v once t = Inr (replicate (length once) v)"
      using ne1 by (simp add: reduce_noise_def magnitude_of_def)
    with None len show ?thesis by simp
  next
    case (Some ns)
    let ?ys = "reconstruct (fft (map of_int once)) ns"
    let ?twice = "map astype_int16 ?ys"
    have leny: "length ?ys = length once"
      by (simp add: reconstruct_def length_ifft clean_spectrum_def clean_magnitude_def length_fft)
    have run: "reduce_noise v once t = Inr ?twice"
      using ne1 Some by (simp add: reduce_noise_def magnitude_of_def subtract_and_reconstruct_def)
    have ns: "0 \<le> ns"
      using noise_estimate_nonneg [OF Some pos] .
    have a: "cmod (fft (map complex_of_real ?ys) ! k) \<le> magnitude_of once ! k"
      using reconstruct_spectrum_bounded [OF k, of ns] ns m0 by simp
    have b: "magnitude_of ?twice ! k < magnitude_of once ! k + real (length audio_data)"
      if range: "\<forall>r\<in>set ?ys. - 32769 < r \<and> r < 32768"
    proof -
      from range have tw: "?twice = map trunc ?ys"
        by (intro map_cong refl astype_int16_in_range) simp_all
      have ky: "k < length ?ys" using k leny by simp
      have "magnitude_of ?twice ! k = cmod (fft (map of_int (map trunc ?ys)) ! k)"
        using ky by (simp add: magnitude_of_def length_fft tw)
      also have "\<dots> \<le> cmod (fft (map complex_of_real ?ys) ! k)
                     + cmod (fft (map of_int (map trunc ?ys)) ! k - fft (map complex_of_real ?ys) ! k)"
        by (rule norm_triangle_sub)
      also have "\<dots> < magnitude_of once ! k + real (length ?ys)"
        using a fft_truncated_close [OF ky] by simp
      finally show ?thesis by (simp add: leny len)
    qed
    show ?thesis
      using run Some ns a b leny len by simp
  qed
qed

theorem reduce_noise_twice_bounded_witness:
  "cmod (fft (map complex_of_real (reconstruct (fft (map of_int [109, 1, - 107, 1])) 2)) ! 2) \<le> 0
   \<and> magnitude_of [107, 0, - 106, 0] ! 2 < 4"
  using reduce_noise_twice_bounded [OF reduce_noise_once, of 2]
    reduce_noise_twice noise_estimate_once magnitude_once reconstruct_once
  by simp

section \<open>The noise-reduction flag\<close>

lemma main_ignores_noise_reduction: "main ev st (a\<lparr>noise_reduction := b\<rparr>) = main ev st a"
  by (simp add: main_def)

text \<open>
  Claim C1 says that with noise reduction enabled \<^verbatim>\<open>reduce_noise\<close> is applied to the
  samples before the recogniser is invoked. \<^verbatim>\<open>main\<close> never reads the flag, and neither
  \<^verbatim>\<open>process_file\<close> nor \<^verbatim>\<open>process_directory\<close> calls \<^verbatim>\<open>reduce_noise\<close>: for
  \<^verbatim>\<open>-f a.wav -n\<close> the recogniser is handed the recorded samples [41, 39], which
  \<^verbatim>\<open>reduce_noise\<close> would have turned into [39, 39], and the run is the same as without
  the flag.
\<close>

theorem noise_reduction_flag_has_no_effect:
  "map_sum id recognized (main ex_env ex_state ex_args) = Inr [[41, 39]]
   \<and> reduce_noise 0 [41, 39] 0.05 = Inr [39, 39]
   \<and> main ex_env ex_state ex_args = main ex_env ex_state (ex_args\<lparr>noise_reduction := False\<rparr>)"
proof -
  have "map_sum id recognized (main ex_env ex_state ex_args) = Inr [[41, 39]]"
    by (simp add: main_def ex_args_def truthy_def process_file_def is_valid_file_def
        isfile_def ex_state_def is_supported_format_a_wav detect_and_route_language_def
        ex_env_def logging_def create_transcript_file_def path_exists_def isdir_def
        write_file_def output_file_path_def base_filename_def splitext_def basename_def
        rfind_def)
  moreover have "main ex_env ex_state ex_args
      = main ex_env ex_state (ex_args\<lparr>noise_reduction := False\<rparr>)"
    by (simp add: main_ignores_noise_reduction)
  ultimately show ?thesis using reduce_noise_41_39 by simp
qed

theorem noise_reduction_flag_has_no_effect_witness:
  "map_sum id recognized (main ex_env ex_state ex_args) \<noteq> Inr [[39, 39]]"
  using noise_reduction_flag_has_no_effect [THEN conjunct1] by simp

section \<open>The live session and the escape key\<close>

lemma capture_loop_ignores_keyboard:
  "capture_loop (ev\<lparr>is_pressed := p\<rparr>) n i st = capture_loop ev n i st"
  by (induction n arbitrary: i st)
     (simp_all add: detect_and_translate_def Let_def split: sum.splits exn.splits
        option.splits prod.splits)

lemma capture_loop_timeouts:
  "(\<And>j. listen ev j = Inl WaitTimeoutError) \<Longrightarrow> capture_loop ev n i st = None"
  by (induction n arbitrary: i st) simp_all

text \<open>
  Claim C7 says that once the escape key is pressed the capture loop sees the signal at
  the next iteration boundary and ends, the signal being its only way out. The keyboard
  thread prints \<^verbatim>\<open>Program terminated.\<close> and ends itself, but it sets nothing the main
  loop reads: with the key down from the first poll on, the capture loop is still running
  after any number of iterations, and its course never depends on the key at all.
\<close>

theorem escape_key_does_not_end_capture_loop:
  "listen_keyboard ex_live 1 0 [] = Some [''Program terminated.'']
   \<and> capture_loop ex_live n 0 live_start = None
   \<and> capture_loop (ev\<lparr>is_pressed := p\<rparr>) m i st = capture_loop ev m i st"
proof -
  have "listen_keyboard ex_live 1 0 [] = Some [''Program terminated.'']"
    by (simp add: ex_live_def)
  moreover have "capture_loop ex_live n 0 live_start = None"
    by (rule capture_loop_timeouts) (simp add: ex_live_def)
  ultimately show ?thesis by (simp add: capture_loop_ignores_keyboard)
qed

theorem escape_key_does_not_end_capture_loop_witness:
  "capture_loop ex_live 3 0 live_start = None"
  using escape_key_does_not_end_capture_loop [of 3] by simp

end
